theory Spec2Isabelle
  imports Main "HOL-Library.Word"
begin

section \<open>The static host table of hosts.go\<close>

subsection \<open>Data model\<close>

text \<open>
  Go strings are byte sequences, so a string is a \<open>char list\<close> (an Isabelle \<open>char\<close> is one
  byte). \<open>net.IP\<close> is a byte slice; the nil slice is \<open>None\<close>. \<open>time.Duration\<close> is a count
  of nanoseconds; the code never computes with it, so it is an \<open>int\<close>.
\<close>

type_synonym byte = "8 word"
type_synonym net_IP = "byte list option"
type_synonym Duration = int

record Host =
  IP :: net_IP
  Hostname :: string
  Aliases :: "string list"

definition NewHost :: "net_IP \<Rightarrow> string \<Rightarrow> string list \<Rightarrow> Host" where
  "NewHost ip hostname aliases = \<lparr>IP = ip, Hostname = hostname, Aliases = aliases\<rparr>"

text \<open>
  The table. The channel \<open>stopped\<close> is only ever closed (by \<open>Stop\<close>) and polled (by
  \<open>Stopped\<close>), so it is the flag "the channel is closed". The lock is not modelled: every
  operation below is one atomic step of a sequential client.
\<close>

record staticHosts =
  hosts :: "Host list"
  period :: Duration
  stopped :: bool

definition NewHosts :: "Host list \<Rightarrow> staticHosts" where
  "NewHosts hs = \<lparr>hosts = hs, period = 0, stopped = False\<rparr>"

subsection \<open>Lookup\<close>

text \<open>
  The inner loop of \<open>Lookup\<close> over the aliases of one record: on the first alias equal to
  \<open>host\<close> it assigns \<open>ip\<close> and leaves the inner loop; otherwise \<open>ip\<close> keeps its value.
\<close>

fun Lookup_aliases :: "net_IP \<Rightarrow> Host \<Rightarrow> string \<Rightarrow> string list \<Rightarrow> net_IP" where
  "Lookup_aliases ip h host [] = ip"
| "Lookup_aliases ip h host (alias # rest) =
     (if alias = host then IP h else Lookup_aliases ip h host rest)"

text \<open>
  The outer loop: a hostname match assigns \<open>ip\<close> and leaves the outer loop; after the
  inner loop the scan goes on with the next record, whatever the inner loop found.
\<close>

fun Lookup_hosts :: "net_IP \<Rightarrow> string \<Rightarrow> Host list \<Rightarrow> net_IP" where
  "Lookup_hosts ip host [] = ip"
| "Lookup_hosts ip host (h # rest) =
     (if Hostname h = host then IP h
      else Lookup_hosts (Lookup_aliases ip h host (Aliases h)) host rest)"

text \<open>The receiver may be the nil pointer: \<open>None\<close>.\<close>

definition Lookup :: "staticHosts option \<Rightarrow> string \<Rightarrow> net_IP" where
  "Lookup h host =
     (case h of
        None \<Rightarrow> None
      | Some t \<Rightarrow> if host = [] then None else Lookup_hosts None host (hosts t))"

text \<open>A record matches a query by its hostname or by one of its aliases.\<close>

definition matches :: "Host \<Rightarrow> string \<Rightarrow> bool" where
  "matches h host \<longleftrightarrow> Hostname h = host \<or> host \<in> set (Aliases h)"

subsection \<open>The line parser\<close>

text \<open>
  The functions of Go's standard library that \<open>splitLine\<close> calls, on byte strings.
  \<open>strings.IndexByte\<close> returns the index of the first occurrence of the byte, or \<open>-1\<close>;
  \<open>IndexByte_from i\<close> is its scan, arrived at index \<open>i\<close>.
\<close>

fun IndexByte_from :: "nat \<Rightarrow> string \<Rightarrow> char \<Rightarrow> int" where
  "IndexByte_from i [] c = - 1"
| "IndexByte_from i (x # xs) c = (if x = c then int i else IndexByte_from (Suc i) xs c)"

definition IndexByte :: "string \<Rightarrow> char \<Rightarrow> int" where
  "IndexByte s c = IndexByte_from 0 s c"

text \<open>\<open>strings.Replace(s, old, new, -1)\<close> for one-byte \<open>old\<close> and \<open>new\<close>: every occurrence.\<close>

definition Replace :: "string \<Rightarrow> char \<Rightarrow> char \<Rightarrow> string" where
  "Replace s old new = map (\<lambda>c. if c = old then new else c) s"

text \<open>
  \<open>strings.Split(s, sep)\<close> for a one-byte separator: the fragments between the
  separators, in order; \<open>n\<close> separators give \<open>n + 1\<close> fragments, so the empty string gives
  one empty fragment.
\<close>

fun Split :: "string \<Rightarrow> char \<Rightarrow> string list" where
  "Split [] sep = [[]]"
| "Split (c # cs) sep =
     (if c = sep then [] # Split cs sep
      else (case Split cs sep of [] \<Rightarrow> [[c]] | f # fs \<Rightarrow> (c # f) # fs))"

text \<open>
  \<open>strings.TrimSpace\<close> removes the leading and the trailing white space runes of a UTF-8
  string, white space as \<open>unicode.IsSpace\<close> defines it: the six ASCII characters tab, line
  feed, vertical tab, form feed, carriage return and space, and U+0085, U+00A0, U+1680,
  U+2000 to U+200A, U+2028, U+2029, U+202F, U+205F, U+3000. \<open>isSpace\<close> holds of
  the byte sequences that encode one of these runes.
\<close>

definition asciiSpace :: "char \<Rightarrow> bool" where
  "asciiSpace c \<longleftrightarrow>
     c = CHR 0x09 \<or> c = CHR 0x0A \<or> c = CHR 0x0B \<or> c = CHR 0x0C \<or> c = CHR 0x0D \<or> c = CHR 0x20"

definition isSpace :: "string \<Rightarrow> bool" where
  "isSpace bs =
     (case bs of
        [a] \<Rightarrow> asciiSpace a
      | [a, b] \<Rightarrow> a = CHR 0xC2 \<and> (b = CHR 0x85 \<or> b = CHR 0xA0)
      | [a, b, c] \<Rightarrow>
          a = CHR 0xE1 \<and> b = CHR 0x9A \<and> c = CHR 0x80 \<or>
          a = CHR 0xE2 \<and> b = CHR 0x80 \<and>
            ((0x80::nat) \<le> of_char c \<and> of_char c \<le> (0x8A::nat) \<or>
             c = CHR 0xA8 \<or> c = CHR 0xA9 \<or> c = CHR 0xAF) \<or>
          a = CHR 0xE2 \<and> b = CHR 0x81 \<and> c = CHR 0x9F \<or>
          a = CHR 0xE3 \<and> b = CHR 0x80 \<and> c = CHR 0x80
      | _ \<Rightarrow> False)"

text \<open>The number of bytes of the white space rune at the start (at the end) of \<open>s\<close>, or 0.\<close>

definition leadingSpace :: "string \<Rightarrow> nat" where
  "leadingSpace s =
     (if 1 \<le> length s \<and> isSpace (take 1 s) then 1
      else if 2 \<le> length s \<and> isSpace (take 2 s) then 2
      else if 3 \<le> length s \<and> isSpace (take 3 s) then 3
      else 0)"

definition trailingSpace :: "string \<Rightarrow> nat" where
  "trailingSpace s =
     (if 1 \<le> length s \<and> isSpace (drop (length s - 1) s) then 1
      else if 2 \<le> length s \<and> isSpace (drop (length s - 2) s) then 2
      else if 3 \<le> length s \<and> isSpace (drop (length s - 3) s) then 3
      else 0)"

function TrimLeftSpace :: "string \<Rightarrow> string" where
  "TrimLeftSpace s =
     (if leadingSpace s = 0 then s else TrimLeftSpace (drop (leadingSpace s) s))"
  by pat_completeness auto
termination
  by (relation "measure length") (auto simp: leadingSpace_def split: if_splits)

function TrimRightSpace :: "string \<Rightarrow> string" where
  "TrimRightSpace s =
     (if trailingSpace s = 0 then s
      else TrimRightSpace (take (length s - trailingSpace s) s))"
  by pat_completeness auto
termination
  by (relation "measure length") (auto simp: trailingSpace_def split: if_splits)

declare TrimLeftSpace.simps [simp del]
declare TrimRightSpace.simps [simp del]

definition TrimSpace :: "string \<Rightarrow> string" where
  "TrimSpace s = TrimRightSpace (TrimLeftSpace s)"

text \<open>The loop of \<open>splitLine\<close> over the fragments, appending to \<open>ss\<close>.\<close>

fun splitLine_loop :: "string list \<Rightarrow> string list \<Rightarrow> string list" where
  "splitLine_loop ss [] = ss"
| "splitLine_loop ss (s # rest) =
     (if TrimSpace s \<noteq> [] then splitLine_loop (ss @ [TrimSpace s]) rest
      else splitLine_loop ss rest)"

definition splitLine :: "string \<Rightarrow> string list" where
  "splitLine line =
     (if line = [] then []
      else
        let n = IndexByte line (CHR ''#'');
            line1 = (if n \<ge> 0 then take (nat n) line else line);
            line2 = Replace line1 (CHR 0x09) (CHR '' '');
            line3 = TrimSpace line2
        in splitLine_loop [] (Split line3 (CHR '' '')))"

text \<open>
  The tokenizer as the specification words it: truncate at the first \<open>#\<close>, replace each tab
  by a space, trim, split at single spaces, discard the empty fragments.
\<close>

definition tokenize_spec :: "string \<Rightarrow> string list" where
  "tokenize_spec line =
     filter (\<lambda>s. s \<noteq> [])
       (Split (TrimSpace (Replace (takeWhile (\<lambda>c. c \<noteq> CHR ''#'') line) (CHR 0x09) (CHR '' '')))
          (CHR '' ''))"

subsection \<open>Reload, Period, Stop\<close>

datatype error = ErrInvalidDuration string | ErrTooLong | ErrRead string

text \<open>
  The source of \<open>Reload\<close> as \<open>bufio.Scanner\<close> presents it: the lines that the calls of
  \<open>Scan\<close> deliver until it returns false, and the value of \<open>Err\<close> after that. The nil
  reader is \<open>None\<close>.
\<close>

record Reader =
  scan_lines :: "string list"
  scan_err :: "error option"

text \<open>
  \<open>time.ParseDuration\<close> and \<open>net.ParseIP\<close> belong to Go's standard library; \<open>Reload\<close>
  takes them as the parameters \<open>pd\<close> and \<open>pip\<close>. \<open>pd\<close> returns the pair of Go's two
  results and \<open>Reload\<close> keeps the first whatever the second is. One pass of the loop
  body, on the pair of the local variables \<open>period\<close> and \<open>hosts\<close>:
\<close>

definition Reload_line ::
  "(string \<Rightarrow> Duration \<times> error option) \<Rightarrow> (string \<Rightarrow> net_IP) \<Rightarrow>
   Duration \<times> Host list \<Rightarrow> string \<Rightarrow> Duration \<times> Host list" where
  "Reload_line pd pip st line =
     (let ss = splitLine line in
      if length ss < 2 then st
      else if ss ! 0 = ''reload'' then (fst (pd (ss ! 1)), snd st)
      else if pip (ss ! 0) = None then st
      else (fst st,
            snd st @ [\<lparr>IP = pip (ss ! 0), Hostname = ss ! 1,
                       Aliases = (if length ss > 2 then drop 2 ss else [])\<rparr>]))"

definition Stopped :: "staticHosts \<Rightarrow> bool" where
  "Stopped h = stopped h"

definition Stop :: "staticHosts \<Rightarrow> staticHosts" where
  "Stop h = (if stopped h then h else h\<lparr>stopped := True\<rparr>)"

text \<open>\<open>Reload\<close> returns its error result and the table after the call.\<close>

definition Reload ::
  "(string \<Rightarrow> Duration \<times> error option) \<Rightarrow> (string \<Rightarrow> net_IP) \<Rightarrow>
   Reader option \<Rightarrow> staticHosts \<Rightarrow> error option \<times> staticHosts" where
  "Reload pd pip r h =
     (case r of
        None \<Rightarrow> (None, h)
      | Some rd \<Rightarrow>
          if Stopped h then (None, h)
          else
            let st = foldl (Reload_line pd pip) (0, []) (scan_lines rd) in
            (case scan_err rd of
               Some e \<Rightarrow> (Some e, h)
             | None \<Rightarrow> (None, h\<lparr>period := fst st, hosts := snd st\<rparr>)))"

definition Period :: "staticHosts \<Rightarrow> Duration" where
  "Period h = (if Stopped h then - 1 else period h)"

subsection \<open>Instances of the two library parsers\<close>

text \<open>
  Concrete parsers, to run \<open>Reload\<close> on concrete texts. \<open>ParseDuration\<close> follows
  \<open>time.ParseDuration\<close> on the literals without a fractional part: an optional sign, then
  either \<open>0\<close> alone or a sequence of decimal numbers each followed by a unit. Go evaluates
  a fractional part in \<open>float64\<close>; this instance has no such literals and reports them as
  invalid. As in Go, every failure returns the duration zero with the error.
\<close>

definition isDigit :: "char \<Rightarrow> bool" where
  "isDigit c \<longleftrightarrow> (48::nat) \<le> of_char c \<and> of_char c \<le> (57::nat)"

text \<open>\<open>leadingInt\<close> reads the leading digits into a \<open>uint64\<close>; \<open>None\<close> is its overflow error.\<close>

fun leadingInt :: "nat \<Rightarrow> string \<Rightarrow> (nat \<times> string) option" where
  "leadingInt x [] = Some (x, [])"
| "leadingInt x (c # cs) =
     (if \<not> isDigit c then Some (x, c # cs)
      else if x > 2 ^ 63 div 10 then None
      else if x * 10 + (of_char c - 48) > 2 ^ 63 then None
      else leadingInt (x * 10 + (of_char c - 48)) cs)"

definition unitMap :: "string \<Rightarrow> nat option" where
  "unitMap u =
     (if u = ''ns'' then Some 1
      else if u = ''us'' \<or> u = [CHR 0xC2, CHR 0xB5, CHR ''s''] \<or> u = [CHR 0xCE, CHR 0xBC, CHR ''s'']
        then Some 1000
      else if u = ''ms'' then Some 1000000
      else if u = ''s'' then Some 1000000000
      else if u = ''m'' then Some 60000000000
      else if u = ''h'' then Some 3600000000000
      else None)"

definition isUnitByte :: "char \<Rightarrow> bool" where
  "isUnitByte c \<longleftrightarrow> c \<noteq> CHR ''.'' \<and> \<not> isDigit c"

text \<open>
  The loop of \<open>ParseDuration\<close> over the number and unit pairs; \<open>d\<close> is the \<open>uint64\<close> sum so
  far, \<open>None\<close> is the error return.
\<close>

function ParseDuration_loop :: "nat \<Rightarrow> string \<Rightarrow> nat option" where
  "ParseDuration_loop d s =
     (if s = [] then Some d
      else if \<not> (hd s = CHR ''.'' \<or> isDigit (hd s)) then None
      else
        (case leadingInt 0 s of
           None \<Rightarrow> None
         | Some (v, s1) \<Rightarrow>
             if s1 \<noteq> [] \<and> hd s1 = CHR ''.'' then None
             else if length s1 = length s then None
             else if takeWhile isUnitByte s1 = [] then None
             else
               (case unitMap (takeWhile isUnitByte s1) of
                  None \<Rightarrow> None
                | Some unit \<Rightarrow>
                    if v > 2 ^ 63 div unit then None
                    else if (d + v * unit) mod 2 ^ 64 > 2 ^ 63 then None
                    else ParseDuration_loop ((d + v * unit) mod 2 ^ 64)
                           (dropWhile isUnitByte s1))))"
  by pat_completeness auto
termination
proof (relation "measure (\<lambda>(d, s). length s)")
  show "wf (measure (\<lambda>(d, s). length s))" by simp
next
  fix d :: nat and s :: string and x2 :: "nat \<times> string" and v s1 x2a
  assume a: "leadingInt 0 s = Some x2" "(v, s1) = x2"
    "takeWhile isUnitByte s1 \<noteq> []"
  have le: "leadingInt x t = Some (w, r) \<Longrightarrow> length r \<le> length t" for x t w r
  proof (induction t arbitrary: x)
    case Nil
    then show ?case by simp
  next
    case (Cons a t)
    show ?case
    proof (cases "isDigit a")
      case False
      with Cons.prems show ?thesis by auto
    next
      case True
      with Cons.prems have "leadingInt (x * 10 + (of_char a - 48)) t = Some (w, r)"
        by (simp split: if_splits)
      from Cons.IH [OF this] show ?thesis by simp
    qed
  qed
  from a have "length s1 \<le> length s" using le [of 0 s v s1] by simp
  moreover from a(3) have "length (dropWhile isUnitByte s1) < length s1"
    by (cases s1) (auto simp: less_Suc_eq_le length_dropWhile_le split: if_splits)
  ultimately show "(((d + v * x2a) mod 2 ^ 64, dropWhile isUnitByte s1), d, s)
      \<in> measure (\<lambda>(d, s). length s)"
    by simp
qed

declare ParseDuration_loop.simps [simp del]

definition ParseDuration :: "string \<Rightarrow> Duration \<times> error option" where
  "ParseDuration orig =
     (let neg = (orig \<noteq> [] \<and> hd orig = CHR ''-'');
          s = (if orig \<noteq> [] \<and> (hd orig = CHR ''-'' \<or> hd orig = CHR ''+'') then tl orig
               else orig)
      in if s = ''0'' then (0, None)
         else if s = [] then (0, Some (ErrInvalidDuration orig))
         else
           (case ParseDuration_loop 0 s of
              None \<Rightarrow> (0, Some (ErrInvalidDuration orig))
            | Some d \<Rightarrow>
                if neg then (- int d, None)
                else if d > 2 ^ 63 - 1 then (0, Some (ErrInvalidDuration orig))
                else (int d, None)))"

text \<open>
  \<open>ParseIPv4\<close> follows \<open>net.ParseIP\<close> on dotted-decimal literals: four fields of decimal
  digits separated by single dots, each at most 255 and without a leading zero; the result
  is the 16-byte form of the address. Every other string, the IPv6 literals among them,
  is \<open>nil\<close> in this instance.
\<close>

fun parseOctet :: "nat \<Rightarrow> nat \<Rightarrow> string \<Rightarrow> nat option" where
  "parseOctet val digLen [] = (if digLen = 0 then None else Some val)"
| "parseOctet val digLen (c # cs) =
     (if \<not> isDigit c then None
      else if digLen = 1 \<and> val = 0 then None
      else if val * 10 + (of_char c - 48) > 255 then None
      else parseOctet (val * 10 + (of_char c - 48)) (Suc digLen) cs)"

definition ParseIPv4 :: "string \<Rightarrow> net_IP" where
  "ParseIPv4 s =
     (case map (parseOctet 0 0) (Split s (CHR ''.'')) of
        [Some a, Some b, Some c, Some d] \<Rightarrow>
          Some ([0, 0, 0, 0, 0, 0, 0, 0, 0, 0, 0xff, 0xff] @
                [of_nat a, of_nat b, of_nat c, of_nat d])
      | _ \<Rightarrow> None)"

section \<open>Properties of Lookup\<close>

lemma Lookup_aliases_eq:
  "Lookup_aliases ip h host as = (if host \<in> set as then IP h else ip)"
  by (induction as) auto

lemma Lookup_hosts_no_match:
  "\<forall>x \<in> set hs. \<not> matches x host \<Longrightarrow> Lookup_hosts ip host hs = ip"
  by (induction hs arbitrary: ip) (auto simp: matches_def Lookup_aliases_eq)

lemma Lookup_hosts_append:
  "\<forall>x \<in> set pre. Hostname x \<noteq> host \<Longrightarrow>
   \<exists>ip'. Lookup_hosts ip host (pre @ rest) = Lookup_hosts ip' host rest"
  by (induction pre arbitrary: ip) auto

lemma Lookup_hosts_hostname:
  "Hostname r = host \<Longrightarrow> Lookup_hosts ip host (r # post) = IP r"
  by simp

lemma Lookup_hosts_last_alias:
  "matches r host \<Longrightarrow> \<forall>x \<in> set post. \<not> matches x host \<Longrightarrow>
   Lookup_hosts ip host (r # post) = IP r"
  by (auto simp: matches_def Lookup_aliases_eq Lookup_hosts_no_match)

lemma Lookup_hosts_deciding:
  assumes "\<forall>x \<in> set pre. Hostname x \<noteq> host"
    and "matches r host"
    and "Hostname r = host \<or> (\<forall>x \<in> set post. \<not> matches x host)"
  shows "Lookup_hosts ip host (pre @ r # post) = IP r"
proof -
  from assms(1) obtain ip' where
    "Lookup_hosts ip host (pre @ r # post) = Lookup_hosts ip' host (r # post)"
    using Lookup_hosts_append by blast
  moreover have "Lookup_hosts ip' host (r # post) = IP r"
    using assms(2,3) Lookup_hosts_hostname Lookup_hosts_last_alias by blast
  ultimately show ?thesis by simp
qed

section \<open>Properties of the line parser\<close>

lemma leadingSpace_Nil: "leadingSpace [] = 0"
  by (simp add: leadingSpace_def)

lemma trailingSpace_Nil: "trailingSpace [] = 0"
  by (simp add: trailingSpace_def)

lemma TrimSpace_Nil: "TrimSpace [] = []"
  by (simp add: TrimSpace_def TrimLeftSpace.simps [of "[]"] TrimRightSpace.simps [of "[]"]
      leadingSpace_Nil trailingSpace_Nil)

lemma IndexByte_from_eq:
  "IndexByte_from i s c =
     (if c \<in> set s then int (i + length (takeWhile (\<lambda>x. x \<noteq> c) s)) else - 1)"
  by (induction s arbitrary: i) auto

lemma truncate_at_IndexByte:
  "(if IndexByte line c \<ge> 0 then take (nat (IndexByte line c)) line else line)
     = takeWhile (\<lambda>x. x \<noteq> c) line"
proof (cases "c \<in> set line")
  case True
  then have "IndexByte line c = int (length (takeWhile (\<lambda>x. x \<noteq> c) line))"
    by (simp add: IndexByte_def IndexByte_from_eq)
  then show ?thesis
    by (simp add: takeWhile_eq_take [symmetric])
next
  case False
  then have i: "IndexByte line c = - 1"
    by (simp add: IndexByte_def IndexByte_from_eq)
  from False have t: "takeWhile (\<lambda>x. x \<noteq> c) line = line"
    by auto
  show ?thesis unfolding i t by simp
qed

lemma splitLine_loop_eq:
  "splitLine_loop ss fs = ss @ filter (\<lambda>s. s \<noteq> []) (map TrimSpace fs)"
  by (induction fs arbitrary: ss) auto

lemma splitLine_eq:
  "splitLine line =
     filter (\<lambda>s. s \<noteq> [])
       (map TrimSpace
          (Split (TrimSpace (Replace (takeWhile (\<lambda>c. c \<noteq> CHR ''#'') line) (CHR 0x09) (CHR '' '')))
             (CHR '' '')))"
proof (cases "line = []")
  case True
  then show ?thesis
    by (simp add: splitLine_def Replace_def TrimSpace_Nil)
next
  case False
  then have "splitLine line =
      splitLine_loop []
        (Split (TrimSpace (Replace
           (if IndexByte line (CHR ''#'') \<ge> 0 then take (nat (IndexByte line (CHR ''#''))) line
            else line) (CHR 0x09) (CHR '' ''))) (CHR '' ''))"
    unfolding splitLine_def Let_def by (rule if_not_P)
  then show ?thesis
    unfolding truncate_at_IndexByte splitLine_loop_eq by (simp only: append_Nil)
qed

section \<open>Properties of Reload\<close>

lemma Reload_line_short:
  "length (splitLine line) < 2 \<Longrightarrow> Reload_line pd pip st line = st"
  by (simp add: Reload_line_def)

lemma Reload_line_directive:
  "splitLine line = ''reload'' # a # rest \<Longrightarrow>
   Reload_line pd pip st line = (fst (pd a), snd st)"
  by (simp add: Reload_line_def)

lemma Reload_line_invalid_IP:
  assumes "splitLine line \<noteq> []" and "hd (splitLine line) \<noteq> ''reload''"
    and "pip (hd (splitLine line)) = None"
  shows "Reload_line pd pip st line = st"
proof (cases "splitLine line")
  case Nil
  with assms(1) show ?thesis by simp
next
  case (Cons a rest)
  with assms(2,3) show ?thesis
    by (simp add: Reload_line_def Let_def)
qed

lemma Reload_line_host:
  assumes "splitLine line = a # name # al" and "a \<noteq> ''reload''" and "pip a = Some ip"
  shows "Reload_line pd pip st line =
           (fst st, snd st @ [\<lparr>IP = Some ip, Hostname = name, Aliases = al\<rparr>])"
  using assms by (simp add: Reload_line_def)

lemma Reload_line_not_directive:
  assumes "length (splitLine line) < 2 \<or> hd (splitLine line) \<noteq> ''reload''"
  shows "fst (Reload_line pd pip st line) = fst st"
proof (cases "splitLine line")
  case Nil
  then show ?thesis by (simp add: Reload_line_def)
next
  case (Cons a rest)
  with assms show ?thesis
    by (auto simp: Reload_line_def Let_def)
qed

lemma Reload_line_hosts_grow:
  "set (snd st) \<subseteq> set (snd (Reload_line pd pip st line))"
  by (auto simp: Reload_line_def Let_def)

lemma Reload_lines_hosts_grow:
  "set (snd st) \<subseteq> set (snd (foldl (Reload_line pd pip) st ls))"
proof (induction ls arbitrary: st)
  case Nil
  show ?case by simp
next
  case (Cons l ls)
  have "set (snd st) \<subseteq> set (snd (Reload_line pd pip st l))"
    by (rule Reload_line_hosts_grow)
  also have "\<dots> \<subseteq> set (snd (foldl (Reload_line pd pip) (Reload_line pd pip st l) ls))"
    by (rule Cons.IH)
  finally show ?case by simp
qed

lemma Reload_lines_period_kept:
  "\<forall>l \<in> set ls. length (splitLine l) < 2 \<or> hd (splitLine l) \<noteq> ''reload'' \<Longrightarrow>
   fst (foldl (Reload_line pd pip) st ls) = fst st"
  by (induction ls arbitrary: st) (simp_all add: Reload_line_not_directive)

lemma Reload_lines_host_added:
  assumes "l \<in> set ls" and "splitLine l = a # name # al" and "a \<noteq> ''reload''"
    and "pip a = Some ip"
  shows "\<lparr>IP = Some ip, Hostname = name, Aliases = al\<rparr>
           \<in> set (snd (foldl (Reload_line pd pip) st ls))"
proof -
  from assms(1) obtain ls1 ls2 where ls: "ls = ls1 @ l # ls2"
    by (auto simp: in_set_conv_decomp)
  define st1 where "st1 = foldl (Reload_line pd pip) st ls1"
  have "\<lparr>IP = Some ip, Hostname = name, Aliases = al\<rparr>
          \<in> set (snd (Reload_line pd pip st1 l))"
    using assms(2-4) by (simp add: Reload_line_host)
  also have "\<dots> \<subseteq> set (snd (foldl (Reload_line pd pip) (Reload_line pd pip st1 l) ls2))"
    by (rule Reload_lines_hosts_grow)
  finally show ?thesis
    by (simp add: ls st1_def)
qed

lemma Reload_success:
  "\<not> Stopped h \<Longrightarrow>
   Reload pd pip (Some \<lparr>scan_lines = ls, scan_err = None\<rparr>) h =
     (None, h\<lparr>period := fst (foldl (Reload_line pd pip) (0, []) ls),
              hosts := snd (foldl (Reload_line pd pip) (0, []) ls)\<rparr>)"
  by (simp add: Reload_def Let_def)

lemma Reload_stopped: "Stopped h \<Longrightarrow> Reload pd pip r h = (None, h)"
  by (simp add: Reload_def split: option.splits)

lemma Stopped_Stop: "Stopped (Stop h)"
  by (simp add: Stopped_def Stop_def)

section \<open>The claims\<close>

text \<open>
  C1. The claim: Lookup returns the IP of the first record that matches, and examines no
  record after a match. The code leaves the scan only on a hostname match; after an alias
  match the \<open>break\<close> ends the inner loop alone and the scan goes on, so a later matching
  record overwrites the result. Here the first record matches \<open>x\<close> by alias and the second
  by hostname: Lookup returns the second record's IP.
\<close>

theorem Lookup_alias_match_overwritten:
  "Lookup (Some (NewHosts [NewHost (Some [1, 1, 1, 1]) ''a'' [''x''],
                            NewHost (Some [2, 2, 2, 2]) ''x'' []])) ''x''
     = Some [2, 2, 2, 2]"
  by (simp add: Lookup_def NewHosts_def NewHost_def)

text \<open>
  C2 (as the specification states it, refuted). The claim: when the duration of a
  \<open>reload\<close> line fails to parse, the pending period remains what was parsed last. The code
  assigns the first result of \<open>ParseDuration\<close> whatever the second is, and that is zero on
  a failure: after \<open>reload 30s\<close> the line \<open>reload bogus\<close> brings the period back to zero.
\<close>

theorem Reload_failed_directive_resets_period:
  "Period (snd (Reload ParseDuration ParseIPv4
      (Some \<lparr>scan_lines = [''reload 30s''], scan_err = None\<rparr>) (NewHosts []))) = 30000000000 \<and>
   snd (ParseDuration ''bogus'') \<noteq> None \<and>
   Period (snd (Reload ParseDuration ParseIPv4
      (Some \<lparr>scan_lines = [''reload 30s'', ''reload bogus''], scan_err = None\<rparr>) (NewHosts [])))
     \<noteq> 30000000000"
proof -
  have s1: "splitLine ''reload 30s'' = [''reload'', ''30s'']" by code_simp
  have s2: "splitLine ''reload bogus'' = [''reload'', ''bogus'']" by code_simp
  have p1: "ParseDuration ''30s'' = (30000000000, None)"
    by (simp add: ParseDuration_def ParseDuration_loop.simps [of _ "''30s''"]
        ParseDuration_loop.simps [of _ "[]"] isDigit_def isUnitByte_def unitMap_def)
  have p2: "ParseDuration ''bogus'' = (0, Some (ErrInvalidDuration ''bogus''))"
    by (simp add: ParseDuration_def ParseDuration_loop.simps [of _ "''bogus''"] isDigit_def)
  show ?thesis
    by (simp add: Reload_def Reload_line_def Period_def Stopped_def NewHosts_def s1 s2 p1 p2)
qed

text \<open>
  C2 (amended). On a line whose first token is \<open>reload\<close> the pending period becomes the
  duration that \<open>ParseDuration\<close> returns for the second token, its error ignored; when the
  parse fails that duration is zero, so the pending period becomes zero whatever was parsed
  before. The pending host records are unchanged.
\<close>

theorem Reload_directive_parse_failure:
  "splitLine line = ''reload'' # a # rest \<Longrightarrow>
   Reload_line pd pip (p, hs) line = (fst (pd a), hs) \<and>
   (pd a = (0, Some e) \<longrightarrow> Reload_line pd pip (p, hs) line = (0, hs))"
  by (simp add: Reload_line_directive)

theorem Reload_directive_parse_failure_witness:
  "Reload_line ParseDuration ParseIPv4 (30000000000, []) ''reload bogus'' = (0, [])"
proof -
  have s: "splitLine ''reload bogus'' = ''reload'' # ''bogus'' # []" by code_simp
  have p: "ParseDuration ''bogus'' = (0, Some (ErrInvalidDuration ''bogus''))"
    by (simp add: ParseDuration_def ParseDuration_loop.simps [of _ "''bogus''"] isDigit_def)
  from Reload_directive_parse_failure [OF s, of ParseDuration ParseIPv4 30000000000 "[]"
      "ErrInvalidDuration ''bogus''"] p
  show ?thesis by simp
qed

text \<open>
  C3 (as the specification states it, refuted). The claim: Reload changes nothing when the
  source is empty. The code returns early only for the nil reader; a reader that delivers
  no line takes the normal path, which replaces the host sequence by the empty one.
\<close>

theorem Reload_empty_source_clears:
  "Reload ParseDuration ParseIPv4 (Some \<lparr>scan_lines = [], scan_err = None\<rparr>)
     (NewHosts [NewHost (Some [192, 168, 1, 1]) ''example.com'' []])
   = (None, NewHosts []) \<and>
   NewHosts [] \<noteq> NewHosts [NewHost (Some [192, 168, 1, 1]) ''example.com'' []]"
  by (simp add: Reload_def Stopped_def NewHosts_def NewHost_def)

text \<open>
  C3 (amended). Reload returns success and leaves the table as it is, host sequence and
  period included, whenever no source is supplied (the reader is nil) or the table has
  been stopped.
\<close>

theorem Reload_noop:
  "r = None \<or> Stopped h \<Longrightarrow> Reload pd pip r h = (None, h)"
  by (auto simp: Reload_def split: option.splits)

theorem Reload_noop_witness:
  "Reload ParseDuration ParseIPv4 None
     (NewHosts [NewHost (Some [192, 168, 1, 1]) ''example.com'' []])
   = (None, NewHosts [NewHost (Some [192, 168, 1, 1]) ''example.com'' []])"
  by (rule Reload_noop) simp

text \<open>
  C4. When the scan of the source ends with an error, Reload (on a table that is not
  stopped, so that the scan takes place) returns that error and the table is unchanged.
\<close>

theorem Reload_scan_error:
  "\<not> Stopped h \<Longrightarrow>
   Reload pd pip (Some \<lparr>scan_lines = ls, scan_err = Some e\<rparr>) h = (Some e, h)"
  by (simp add: Reload_def Let_def)

theorem Reload_scan_error_witness:
  "Reload ParseDuration ParseIPv4
     (Some \<lparr>scan_lines = [''10.0.0.1 a'', ''reload 30s''], scan_err = Some ErrTooLong\<rparr>)
     (NewHosts [NewHost (Some [192, 168, 1, 1]) ''example.com'' []])
   = (Some ErrTooLong, NewHosts [NewHost (Some [192, 168, 1, 1]) ''example.com'' []])"
  by (rule Reload_scan_error) (simp add: Stopped_def NewHosts_def)

text \<open>
  C5. A line whose first token is not \<open>reload\<close> and is not an IP address is skipped: the
  loop body leaves the pending period and hosts as they are, so Reload behaves as on the
  text without that line; on a table that is not stopped and a scan without error Reload
  returns no error, and every valid host line after the skipped one still has its record
  in the new sequence.
\<close>

theorem Reload_skips_invalid_IP_line:
  assumes "splitLine line \<noteq> []" and "hd (splitLine line) \<noteq> ''reload''"
    and "pip (hd (splitLine line)) = None"
  shows "Reload_line pd pip st line = st \<and>
    Reload pd pip (Some \<lparr>scan_lines = pre @ line # post, scan_err = e\<rparr>) h =
      Reload pd pip (Some \<lparr>scan_lines = pre @ post, scan_err = e\<rparr>) h \<and>
    (\<not> Stopped h \<longrightarrow>
      fst (Reload pd pip (Some \<lparr>scan_lines = pre @ line # post, scan_err = None\<rparr>) h) = None) \<and>
    (\<not> Stopped h \<and> l \<in> set post \<and> splitLine l = a # name # al \<and> a \<noteq> ''reload'' \<and>
     pip a = Some ip \<longrightarrow>
       \<lparr>IP = Some ip, Hostname = name, Aliases = al\<rparr> \<in> set (hosts (snd
         (Reload pd pip (Some \<lparr>scan_lines = pre @ line # post, scan_err = None\<rparr>) h))))"
proof -
  have skip: "Reload_line pd pip st line = st" for st
    using assms by (rule Reload_line_invalid_IP)
  have same: "foldl (Reload_line pd pip) st (pre @ line # post) =
      foldl (Reload_line pd pip) st (pre @ post)" for st
    by (simp add: skip)
  have eq: "Reload pd pip (Some \<lparr>scan_lines = pre @ line # post, scan_err = e\<rparr>) h =
      Reload pd pip (Some \<lparr>scan_lines = pre @ post, scan_err = e\<rparr>) h"
    unfolding Reload_def by (simp only: same Reader.simps option.case)
  have ok: "fst (Reload pd pip (Some \<lparr>scan_lines = pre @ line # post, scan_err = None\<rparr>) h)
      = None" if "\<not> Stopped h"
    using that by (simp add: Reload_success)
  have added: "\<lparr>IP = Some ip, Hostname = name, Aliases = al\<rparr> \<in> set (hosts (snd
      (Reload pd pip (Some \<lparr>scan_lines = pre @ line # post, scan_err = None\<rparr>) h)))"
    if "\<not> Stopped h" "l \<in> set post" "splitLine l = a # name # al" "a \<noteq> ''reload''"
      "pip a = Some ip"
  proof -
    from that(2) have "l \<in> set (pre @ line # post)" by simp
    from Reload_lines_host_added [where pip = pip and pd = pd and st = "(0, [])",
        OF this that(3,4,5)] that(1)
    show ?thesis by (simp add: Reload_success)
  qed
  from skip eq ok added show ?thesis by blast
qed

theorem Reload_skips_invalid_IP_line_witness:
  "Reload ParseDuration ParseIPv4
     (Some \<lparr>scan_lines = [''# comment'', ''192.168.1.1   host.local   alias1  alias2'',
                          ''reload 30s''] @ ''not-an-ip    bad'' # [''10.0.0.1 later''],
            scan_err = None\<rparr>) (NewHosts [])
   = Reload ParseDuration ParseIPv4
     (Some \<lparr>scan_lines = [''# comment'', ''192.168.1.1   host.local   alias1  alias2'',
                          ''reload 30s''] @ [''10.0.0.1 later''],
            scan_err = None\<rparr>) (NewHosts []) \<and>
   fst (Reload ParseDuration ParseIPv4
     (Some \<lparr>scan_lines = [''# comment'', ''192.168.1.1   host.local   alias1  alias2'',
                          ''reload 30s''] @ ''not-an-ip    bad'' # [''10.0.0.1 later''],
            scan_err = None\<rparr>) (NewHosts [])) = None \<and>
   \<lparr>IP = Some [0, 0, 0, 0, 0, 0, 0, 0, 0, 0, 0xff, 0xff, 10, 0, 0, 1],
     Hostname = ''later'', Aliases = []\<rparr> \<in> set (hosts (snd (Reload ParseDuration ParseIPv4
     (Some \<lparr>scan_lines = [''# comment'', ''192.168.1.1   host.local   alias1  alias2'',
                          ''reload 30s''] @ ''not-an-ip    bad'' # [''10.0.0.1 later''],
            scan_err = None\<rparr>) (NewHosts []))))"
proof -
  have s: "splitLine ''not-an-ip    bad'' = [''not-an-ip'', ''bad'']" by code_simp
  have i: "ParseIPv4 ''not-an-ip'' = None"
    by (simp add: ParseIPv4_def isDigit_def)
  have s2: "splitLine ''10.0.0.1 later'' = ''10.0.0.1'' # ''later'' # []" by code_simp
  have i2: "ParseIPv4 ''10.0.0.1'' = Some [0, 0, 0, 0, 0, 0, 0, 0, 0, 0, 0xff, 0xff, 10, 0, 0, 1]"
    by (simp add: ParseIPv4_def isDigit_def)
  have n: "\<not> Stopped (NewHosts [])"
    by (simp add: Stopped_def NewHosts_def)
  have m: "''10.0.0.1 later'' \<in> set [''10.0.0.1 later'']" by simp
  have d: "''10.0.0.1'' \<noteq> ''reload''" by simp
  have h1: "splitLine ''not-an-ip    bad'' \<noteq> []" by (simp add: s)
  have h2: "hd (splitLine ''not-an-ip    bad'') \<noteq> ''reload''" by (simp add: s)
  have h3: "ParseIPv4 (hd (splitLine ''not-an-ip    bad'')) = None" by (simp add: s i)
  from Reload_skips_invalid_IP_line [where pip = ParseIPv4 and pd = ParseDuration
      and line = "''not-an-ip    bad''" and st = "(0, [])"
      and pre = "[''# comment'', ''192.168.1.1   host.local   alias1  alias2'', ''reload 30s'']"
      and post = "[''10.0.0.1 later'']" and e = None and h = "NewHosts []"
      and l = "''10.0.0.1 later''" and a = "''10.0.0.1''" and name = "''later''" and al = "[]"
      and ip = "[0, 0, 0, 0, 0, 0, 0, 0, 0, 0, 0xff, 0xff, 10, 0, 0, 1]", OF h1 h2 h3]
    n s2 i2 m d
  show ?thesis by blast
qed

text \<open>
  C6. After \<open>Stop\<close> the table is stopped and \<open>Period\<close> returns \<open>-1\<close>, whatever the table held
  before; a Reload then returns success and leaves the table exactly as it was, and so
  does every further Reload.
\<close>

theorem Stop_then_Period_and_Reload:
  "Stopped (Stop h) \<and> Period (Stop h) = - 1 \<and>
   Reload pd pip r (Stop h) = (None, Stop h) \<and>
   foldl (\<lambda>t r. snd (Reload pd pip r t)) (Stop h) rs = Stop h"
proof -
  have "foldl (\<lambda>t r. snd (Reload pd pip r t)) (Stop h) rs = Stop h"
    by (induction rs) (simp_all add: Reload_stopped Stopped_Stop)
  then show ?thesis
    by (simp add: Reload_stopped Stopped_Stop Period_def)
qed

text \<open>
  C7 (as the specification states it, refuted). The claim: on a table that is not stopped
  \<open>Period\<close> returns the most recently parsed reload period. Every successful Reload
  stores the period of its own text, zero when the text has no \<open>reload\<close> line: after a
  Reload of \<open>reload 5m\<close> the period is five minutes, and after a further Reload of a text
  with one host line and no directive the table is not stopped and \<open>Period\<close> returns zero,
  not the five minutes parsed last.
\<close>

theorem Period_forgets_earlier_reload:
  "Period (snd (Reload ParseDuration ParseIPv4
      (Some \<lparr>scan_lines = [''reload 5m''], scan_err = None\<rparr>) (NewHosts []))) = 300000000000 \<and>
   \<not> Stopped (snd (Reload ParseDuration ParseIPv4
      (Some \<lparr>scan_lines = [''10.0.0.2 b''], scan_err = None\<rparr>)
      (snd (Reload ParseDuration ParseIPv4
         (Some \<lparr>scan_lines = [''reload 5m''], scan_err = None\<rparr>) (NewHosts []))))) \<and>
   Period (snd (Reload ParseDuration ParseIPv4
      (Some \<lparr>scan_lines = [''10.0.0.2 b''], scan_err = None\<rparr>)
      (snd (Reload ParseDuration ParseIPv4
         (Some \<lparr>scan_lines = [''reload 5m''], scan_err = None\<rparr>) (NewHosts []))))) = 0"
proof -
  have s1: "splitLine ''reload 5m'' = [''reload'', ''5m'']" by code_simp
  have s2: "splitLine ''10.0.0.2 b'' = [''10.0.0.2'', ''b'']" by code_simp
  have p1: "ParseDuration ''5m'' = (300000000000, None)"
    by (simp add: ParseDuration_def ParseDuration_loop.simps [of _ "''5m''"]
        ParseDuration_loop.simps [of _ "[]"] isDigit_def isUnitByte_def unitMap_def)
  have i2: "ParseIPv4 ''10.0.0.2'' = Some [0, 0, 0, 0, 0, 0, 0, 0, 0, 0, 0xff, 0xff, 10, 0, 0, 2]"
    by (simp add: ParseIPv4_def isDigit_def)
  show ?thesis
    by (simp add: Reload_def Reload_line_def Period_def Stopped_def NewHosts_def s1 s2 p1 i2)
qed

text \<open>
  C7 (amended). \<open>Period\<close> returns \<open>-1\<close> on a stopped table and the stored period otherwise.
  The stored period is zero on a new table; after a successful Reload it is the value that
  \<open>ParseDuration\<close> returned for the last \<open>reload\<close> line of the text of that Reload, and zero
  when that text has no such line, whatever the table held before.
\<close>

theorem Period_value:
  "(Stopped h1 \<longrightarrow> Period h1 = - 1) \<and>
   (\<not> Stopped h2 \<longrightarrow> Period h2 = period h2) \<and>
   Period (NewHosts hs) = 0 \<and>
   (\<not> Stopped h \<and> splitLine line = ''reload'' # a # rest \<and>
    (\<forall>l \<in> set post. length (splitLine l) < 2 \<or> hd (splitLine l) \<noteq> ''reload'') \<longrightarrow>
      Period (snd (Reload pd pip (Some \<lparr>scan_lines = pre @ line # post, scan_err = None\<rparr>) h))
        = fst (pd a)) \<and>
   (\<not> Stopped h \<and>
    (\<forall>l \<in> set ls. length (splitLine l) < 2 \<or> hd (splitLine l) \<noteq> ''reload'') \<longrightarrow>
      Period (snd (Reload pd pip (Some \<lparr>scan_lines = ls, scan_err = None\<rparr>) h)) = 0)"
proof -
  have new: "Period (NewHosts hs) = 0"
    by (simp add: Period_def Stopped_def NewHosts_def)
  have after: "Period (snd (Reload pd pip (Some \<lparr>scan_lines = ks, scan_err = None\<rparr>) h))
      = fst (foldl (Reload_line pd pip) (0, []) ks)" if "\<not> Stopped h" for ks
    using that by (simp add: Reload_success Period_def Stopped_def)
  have last: "fst (foldl (Reload_line pd pip) (0, []) (pre @ line # post)) = fst (pd a)"
    if "splitLine line = ''reload'' # a # rest"
      "\<forall>l \<in> set post. length (splitLine l) < 2 \<or> hd (splitLine l) \<noteq> ''reload''"
    using that by (simp add: Reload_lines_period_kept Reload_line_directive)
  have none: "fst (foldl (Reload_line pd pip) (0, []) ls) = 0"
    if "\<forall>l \<in> set ls. length (splitLine l) < 2 \<or> hd (splitLine l) \<noteq> ''reload''"
    using that by (simp add: Reload_lines_period_kept)
  show ?thesis
    using new after last none by (simp add: Period_def)
qed

theorem Period_value_witness:
  "Period (Stop (NewHosts [])) = - 1 \<and>
   Period (NewHosts []) = period (NewHosts []) \<and>
   Period (snd (Reload ParseDuration ParseIPv4
     (Some \<lparr>scan_lines = [''reload 5m''] @ ''reload 30s'' # [''10.0.0.1 later''],
            scan_err = None\<rparr>) (NewHosts []))) = 30000000000 \<and>
   Period (snd (Reload ParseDuration ParseIPv4
     (Some \<lparr>scan_lines = [''10.0.0.1 later''], scan_err = None\<rparr>) (NewHosts []))) = 0"
proof -
  have s1: "splitLine ''reload 30s'' = ''reload'' # ''30s'' # []" by code_simp
  have s2: "splitLine ''10.0.0.1 later'' = [''10.0.0.1'', ''later'']" by code_simp
  have p1: "ParseDuration ''30s'' = (30000000000, None)"
    by (simp add: ParseDuration_def ParseDuration_loop.simps [of _ "''30s''"]
        ParseDuration_loop.simps [of _ "[]"] isDigit_def isUnitByte_def unitMap_def)
  have n: "\<not> Stopped (NewHosts [])"
    by (simp add: Stopped_def NewHosts_def)
  from Period_value [of "Stop (NewHosts [])" "NewHosts []" "[]" "NewHosts []"
      "''reload 30s''" "''30s''" "[]" "[''10.0.0.1 later'']" ParseDuration ParseIPv4
      "[''reload 5m'']" "[''10.0.0.1 later'']"]
    n s1 s2 p1 Stopped_Stop [of "NewHosts []"]
  show ?thesis by simp
qed

text \<open>
  C8 (as the specification states it, refuted). The claim: the tokens are the non-empty
  fragments of the trimmed line split at single spaces. The code trims every fragment
  again before it tests for emptiness, so a fragment made of white space other than the
  blank is dropped: on \<open>a\<close>, blank, carriage return, blank, \<open>b\<close> the code returns two tokens
  and the stated procedure three.
\<close>

theorem splitLine_differs_from_stated:
  "splitLine (''a '' @ [CHR 0x0D] @ '' b'') = [''a'', ''b''] \<and>
   tokenize_spec (''a '' @ [CHR 0x0D] @ '' b'') = [''a'', [CHR 0x0D], ''b'']"
proof -
  have "splitLine (''a '' @ [CHR 0x0D] @ '' b'') = [''a'', ''b'']" by code_simp
  moreover
  have "tokenize_spec (''a '' @ [CHR 0x0D] @ '' b'') = [''a'', [CHR 0x0D], ''b'']" by code_simp
  ultimately show ?thesis by simp
qed

text \<open>
  C8 (amended). For every line, \<open>splitLine\<close> returns the tokens obtained by truncating the
  line at the first \<open>#\<close>, replacing each tab by a space, trimming the white space at both
  ends, splitting at single spaces, trimming the white space of each fragment, and
  discarding the fragments that are then empty; the empty line yields no token.
\<close>

theorem splitLine_tokens:
  "splitLine line =
     filter (\<lambda>s. s \<noteq> [])
       (map TrimSpace
          (Split (TrimSpace (Replace (takeWhile (\<lambda>c. c \<noteq> CHR ''#'') line) (CHR 0x09) (CHR '' '')))
             (CHR '' ''))) \<and>
   splitLine [] = []"
proof -
  have "splitLine [] = []" by (simp add: splitLine_def)
  with splitLine_eq [of line] show ?thesis by (simp only: simp_thms)
qed

text \<open>
  C9. A successful Reload of the one line \<open>reload -1ns\<close> on a table that is not stopped
  leaves it not stopped with \<open>Period\<close> returning \<open>-1\<close>, the value returned for a stopped
  table (\<open>ParseDuration\<close> gives \<open>-1\<close> for \<open>-1ns\<close>).
\<close>

theorem Period_minus_one_not_stopped:
  "pd ''-1ns'' = (- 1, None) \<Longrightarrow> \<not> Stopped h \<Longrightarrow>
   fst (Reload pd pip (Some \<lparr>scan_lines = [''reload -1ns''], scan_err = None\<rparr>) h) = None \<and>
   \<not> Stopped (snd (Reload pd pip (Some \<lparr>scan_lines = [''reload -1ns''], scan_err = None\<rparr>) h)) \<and>
   Period (snd (Reload pd pip (Some \<lparr>scan_lines = [''reload -1ns''], scan_err = None\<rparr>) h)) = - 1"
proof -
  assume p: "pd ''-1ns'' = (- 1, None)" and n: "\<not> Stopped h"
  have s: "splitLine ''reload -1ns'' = [''reload'', ''-1ns'']" by code_simp
  from p n show ?thesis
    by (simp add: Reload_success Reload_line_directive [OF s] Period_def Stopped_def)
qed

theorem Period_minus_one_not_stopped_witness:
  "\<not> Stopped (snd (Reload ParseDuration ParseIPv4
      (Some \<lparr>scan_lines = [''reload -1ns''], scan_err = None\<rparr>) (NewHosts []))) \<and>
   Period (snd (Reload ParseDuration ParseIPv4
      (Some \<lparr>scan_lines = [''reload -1ns''], scan_err = None\<rparr>) (NewHosts []))) = - 1"
proof -
  have p: "ParseDuration ''-1ns'' = (- 1, None)"
    by (simp add: ParseDuration_def ParseDuration_loop.simps [of _ "''1ns''"]
        ParseDuration_loop.simps [of _ "[]"] isDigit_def isUnitByte_def unitMap_def)
  have n: "\<not> Stopped (NewHosts [])"
    by (simp add: Stopped_def NewHosts_def)
  from Period_minus_one_not_stopped [where pd = ParseDuration and pip = ParseIPv4
      and h = "NewHosts []", OF p n]
  show ?thesis by simp
qed

text \<open>
  C10. The claim: when the record that Lookup matches, the first matching record, has no
  IP, Lookup returns the absent value. Here the first record has no IP and matches \<open>x\<close> by
  alias; the scan goes on after the alias match, the second record matches by hostname,
  and Lookup returns the second record's address instead of the absent value.
\<close>

theorem Lookup_nil_IP_match_overwritten:
  "IP (NewHost None ''a'' [''x'']) = None \<and>
   matches (NewHost None ''a'' [''x'']) ''x'' \<and>
   Lookup (Some (NewHosts [NewHost None ''a'' [''x''],
                            NewHost (Some [2, 2, 2, 2]) ''x'' []])) ''x''
     = Some [2, 2, 2, 2]"
  by (simp add: Lookup_def NewHosts_def NewHost_def matches_def)

end
